theory Spec2Isabelle
  imports Complex_Main
begin

section \<open>Values\<close>

text \<open>
  The program is a Streamlit script (\<^verbatim>\<open>app.py\<close>) whose helpers work on pandas objects.
  A number is a rational and arithmetic on it is exact; \<open>None\<close> is NaN, which pandas uses
  for a missing value. The code computes in float64, which rounds: the two agree where no
  operation rounds, and every statement below that depends on the value of a number is made
  for such inputs only (whole numbers of bounded size). Infinities are not modelled.
\<close>

type_synonym float = "rat option"

datatype error =
    FileNotFoundError | EmptyDataError | ParserError | ValueError
  | KeyError | TypeError | ConnectionError | OutOfBoundsTimedelta

text \<open>
  A \<^verbatim>\<open>pd.Timestamp\<close> without time zone: nanoseconds since the epoch. pandas holds
  timestamps and time spans in 64 bits, from \<open>- int64_max\<close> to \<open>int64_max\<close> nanoseconds.
\<close>

type_synonym timestamp = int

definition day_ns :: int where
  "day_ns = 86400000000000"

definition int64_max :: int where
  "int64_max = 9223372036854775807"

definition in_ns_range :: "int \<Rightarrow> bool" where
  "in_ns_range t = (- int64_max \<le> t \<and> t \<le> int64_max)"

definition Timedelta :: "int \<Rightarrow> error + int" where
  \<comment> \<open>\<^verbatim>\<open>pd.Timedelta(days=n)\<close>, which raises when the span does not fit\<close>
  "Timedelta n =
     (if in_ns_range (n * day_ns) then Inr (n * day_ns) else Inl OutOfBoundsTimedelta)"

definition normalize_ts :: "timestamp \<Rightarrow> timestamp" where
  \<comment> \<open>\<^verbatim>\<open>Timestamp.normalize()\<close>: the time of day is set to midnight\<close>
  "normalize_ts t = t - t mod day_ns"

text \<open>
  The text of one CSV field, up to what \<^verbatim>\<open>pd.read_csv\<close> tells apart: a field that is one of
  the NA markers (the empty field, \<^verbatim>\<open>NA\<close>, \<^verbatim>\<open>NaN\<close>, \<^verbatim>\<open>null\<close>, ...), a numeric literal with
  its value, a date literal with the timestamp it denotes, one of the texts read as a
  boolean (\<^verbatim>\<open>True\<close>, \<^verbatim>\<open>true\<close>, \<^verbatim>\<open>FALSE\<close>, ...), and any other text.
\<close>

datatype csv_field = Blank | NumLit rat | DateLit timestamp | BoolLit bool | Other string

text \<open>
  A Python value held in a DataFrame cell or in the \<^verbatim>\<open>row\<close> dictionary: NaN (NaT in a
  datetime column), a number, a timestamp, a boolean, or a \<^verbatim>\<open>str\<close>, given by its text.
\<close>

datatype cell = NaN | Num rat | Date timestamp | Bool bool | Str csv_field

fun fsub :: "float \<Rightarrow> float \<Rightarrow> float" where
  "fsub (Some a) (Some b) = Some (a - b)"
| "fsub _ _ = None"

fun fadd :: "float \<Rightarrow> float \<Rightarrow> float" where
  "fadd (Some a) (Some b) = Some (a + b)"
| "fadd _ _ = None"

fun fmul :: "float \<Rightarrow> float \<Rightarrow> float" where
  "fmul (Some a) (Some b) = Some (a * b)"
| "fmul _ _ = None"

fun flt :: "float \<Rightarrow> float \<Rightarrow> bool" where
  \<comment> \<open>a comparison with NaN is false\<close>
  "flt (Some a) (Some b) = (a < b)"
| "flt _ _ = False"

definition fgt :: "float \<Rightarrow> float \<Rightarrow> bool" where
  "fgt a b = flt b a"

definition isnan :: "float \<Rightarrow> bool" where
  "isnan x = (x = None)"

section \<open>Configuration\<close>

definition CATEGORIES :: "string list" where
  "CATEGORIES =
     [''Rent'', ''Loan_Repayment'', ''Insurance'', ''Groceries'', ''Transport'',
      ''Eating_Out'', ''Entertainment'', ''Utilities'', ''Healthcare'', ''Education'',
      ''Miscellaneous'']"

definition storage_cols :: "string list" where
  \<comment> \<open>the local \<^verbatim>\<open>cols\<close> of \<^verbatim>\<open>ensure_storage\<close>\<close>
  "storage_cols =
     [''Fake_date'', ''Income'', ''Age'', ''Dependents'', ''Occupation'', ''City_Tier'']
     @ CATEGORIES @ [''Total_Expenses'', ''Disposable_Income'']"

section \<open>Loading the model at start-up\<close>

text \<open>
  Lines 24 to 38 of the script. The world it runs in: whether \<^verbatim>\<open>MODEL_PATH\<close> exists, and
  if so whether \<^verbatim>\<open>joblib.load\<close> accepts it; and what \<^verbatim>\<open>requests.get\<close> does, which either
  raises (no network, no such host) or returns a response with a status code and a body.
\<close>

datatype artifact = Loadable | Unloadable

datatype response = Raises | Response nat artifact

record world =
  model_file :: "artifact option"
  remote :: response

record app =
  model_loaded :: bool
  st_errors :: "string list"
  model_path :: "artifact option"

definition download :: "world \<Rightarrow> error + (artifact option \<times> string list)" where
  \<comment> \<open>the \<^verbatim>\<open>if not os.path.exists(MODEL_PATH)\<close> block; the call of \<^verbatim>\<open>requests.get\<close> is not
      inside any \<^verbatim>\<open>try\<close>\<close>
  "download w =
     (case model_file w of
        Some a \<Rightarrow> Inr (Some a, [])
      | None \<Rightarrow>
          (case remote w of
             Raises \<Rightarrow> Inl ConnectionError
           | Response status_code content \<Rightarrow>
               if status_code = 200 then Inr (Some content, [])
               else Inr (None, [''Failed to download model''])))"

definition startup :: "world \<Rightarrow> error + app" where
  \<comment> \<open>then the \<^verbatim>\<open>try: model = joblib.load(MODEL_PATH)\<close> block, which catches every exception\<close>
  "startup w =
     (case download w of
        Inl e \<Rightarrow> Inl e
      | Inr (file, msgs) \<Rightarrow>
          (case file of
             Some Loadable \<Rightarrow>
               Inr \<lparr>model_loaded = True, st_errors = msgs, model_path = file\<rparr>
           | _ \<Rightarrow>
               Inr \<lparr>model_loaded = False, st_errors = msgs @ [''Failed to load model''],
                    model_path = file\<rparr>))"

section \<open>DataFrames\<close>

text \<open>
  A DataFrame: its column labels and its rows, each row aligned with the labels. The row
  index is not modelled (the program always writes with \<^verbatim>\<open>index=False\<close> and concatenates
  with \<^verbatim>\<open>ignore_index=True\<close>).
\<close>

record dataframe =
  columns :: "string list"
  rows :: "cell list list"

text \<open>A Python \<^verbatim>\<open>dict\<close> with string keys, in insertion order.\<close>

type_synonym pydict = "(string \<times> cell) list"

definition row_get :: "pydict \<Rightarrow> string \<Rightarrow> cell \<Rightarrow> cell" where
  \<comment> \<open>\<^verbatim>\<open>row.get(k, d)\<close>\<close>
  "row_get row k d = (case map_of row k of Some v \<Rightarrow> v | None \<Rightarrow> d)"

definition df_empty :: "dataframe \<Rightarrow> bool" where
  \<comment> \<open>\<^verbatim>\<open>df.empty\<close>: some axis has length 0\<close>
  "df_empty df = (rows df = [] \<or> columns df = [])"

definition cell_of :: "dataframe \<Rightarrow> cell list \<Rightarrow> string \<Rightarrow> cell" where
  \<comment> \<open>the cell of a row under a column label\<close>
  "cell_of df r c = (case map_of (zip (columns df) r) c of Some v \<Rightarrow> v | None \<Rightarrow> NaN)"

definition getitem :: "dataframe \<Rightarrow> string \<Rightarrow> error + cell list" where
  \<comment> \<open>\<^verbatim>\<open>df[c]\<close>\<close>
  "getitem df c =
     (if c \<in> set (columns df) then Inr (map (\<lambda>r. cell_of df r c) (rows df))
      else Inl KeyError)"

fun is_datetime :: "cell \<Rightarrow> bool" where
  "is_datetime NaN = True"
| "is_datetime (Date d) = True"
| "is_datetime _ = False"

definition compare_ts :: "(timestamp \<Rightarrow> timestamp \<Rightarrow> bool) \<Rightarrow> cell list \<Rightarrow> timestamp
    \<Rightarrow> error + bool list" where
  \<comment> \<open>a column compared with a Timestamp: element by element on a datetime column, where NaT
      compares false; a TypeError on a column that holds numbers or strings\<close>
  "compare_ts rel col t =
     (if list_all is_datetime col
      then Inr (map (\<lambda>c. case c of Date d \<Rightarrow> rel d t | _ \<Rightarrow> False) col)
      else Inl TypeError)"

definition loc :: "dataframe \<Rightarrow> bool list \<Rightarrow> dataframe" where
  \<comment> \<open>\<^verbatim>\<open>df.loc[mask].copy()\<close>\<close>
  "loc df m = df\<lparr>rows := map fst (filter snd (zip (rows df) m))\<rparr>"

definition concat_row :: "dataframe \<Rightarrow> pydict \<Rightarrow> dataframe" where
  \<comment> \<open>\<^verbatim>\<open>pd.concat([df, pd.DataFrame([row])], ignore_index=True)\<close>: the union of the columns,
      those of \<open>df\<close> first, and NaN where a frame has no value for a column. Numbers are
      kept as they are; pandas may turn a column of whole numbers into float64, which
      changes none of at most \<open>2 ^ 53\<close> in magnitude.\<close>
  "concat_row df row =
     (let new = filter (\<lambda>k. k \<notin> set (columns df)) (remdups (map fst row));
          cols = columns df @ new
      in \<lparr>columns = cols,
          rows = map (\<lambda>r. r @ replicate (length new) NaN) (rows df)
                 @ [map (\<lambda>c. row_get row c NaN) cols]\<rparr>)"

section \<open>The storage file\<close>

text \<open>
  \<^verbatim>\<open>STORAGE_FILE\<close>: absent, a file of zero bytes, or a header line and records of fields.
\<close>

datatype storage = Absent | Truncated | Csv "string list" "csv_field list list"

fun to_field :: "cell \<Rightarrow> csv_field" where
  "to_field NaN = Blank"
| "to_field (Num r) = NumLit r"
| "to_field (Date d) = DateLit d"
| "to_field (Bool b) = BoolLit b"
| "to_field (Str s) = s"

definition to_csv :: "dataframe \<Rightarrow> storage" where
  \<comment> \<open>\<^verbatim>\<open>df.to_csv(STORAGE_FILE, index=False)\<close>, the file when the call has returned\<close>
  "to_csv df = Csv (columns df) (map (map to_field) (rows df))"

datatype dtype = Datetime | Numeric | Boolean | Object

fun is_date_field :: "csv_field \<Rightarrow> bool" where
  "is_date_field Blank = True"
| "is_date_field (DateLit d) = True"
| "is_date_field _ = False"

fun is_num_field :: "csv_field \<Rightarrow> bool" where
  "is_num_field Blank = True"
| "is_num_field (NumLit r) = True"
| "is_num_field _ = False"

fun is_bool_field :: "csv_field \<Rightarrow> bool" where
  "is_bool_field Blank = True"
| "is_bool_field (BoolLit b) = True"
| "is_bool_field _ = False"

definition infer :: "bool \<Rightarrow> csv_field list \<Rightarrow> dtype" where
  \<comment> \<open>the type \<^verbatim>\<open>read_csv\<close> gives a column. A column of \<^verbatim>\<open>parse_dates\<close> is read as strings
      and then parsed as dates: it is a datetime column when all its fields parse, and is
      left as strings otherwise. Any other column is numeric when all its fields are
      numeric, boolean when all are booleans, and is otherwise left as strings. An NA
      field is NaN in each case.\<close>
  "infer parse_date fs =
     (if parse_date then (if list_all is_date_field fs then Datetime else Object)
      else if list_all is_num_field fs then Numeric
      else if list_all is_bool_field fs then Boolean
      else Object)"

fun convert :: "dtype \<Rightarrow> csv_field \<Rightarrow> cell" where
  "convert Datetime (DateLit d) = Date d"
| "convert Datetime _ = NaN"
| "convert Numeric (NumLit r) = Num r"
| "convert Numeric _ = NaN"
| "convert Boolean (BoolLit b) = Bool b"
| "convert Boolean _ = NaN"
| "convert Object Blank = NaN"
| "convert Object f = Str f"

definition pad :: "nat \<Rightarrow> csv_field list \<Rightarrow> csv_field list" where
  \<comment> \<open>a record with fewer fields than the header is filled with NA\<close>
  "pad n r = r @ replicate (n - length r) Blank"

definition field_at :: "csv_field list \<Rightarrow> nat \<Rightarrow> csv_field" where
  "field_at r j = (if j < length r then r ! j else Blank)"

definition dtypes :: "string list \<Rightarrow> csv_field list list \<Rightarrow> dtype list" where
  "dtypes hdr body =
     map (\<lambda>j. infer (hdr ! j = ''Fake_date'') (map (\<lambda>r. field_at r j) body))
       [0..<length hdr]"

text \<open>
  What \<^verbatim>\<open>read_csv\<close> does with the lines. A blank line (a record without fields) is
  skipped. When the first record has more fields than the header, its leading fields are
  taken as the row index, which is no column of the frame. A record with fewer fields
  than that is filled with NA; one with more is an error. Reading also fails on a file
  without a header line and on a header without the column named in \<^verbatim>\<open>parse_dates\<close>; it
  does not fail on what a field holds. The labels of the header are taken to be distinct
  and not empty (pandas renames a label that is repeated or empty).
\<close>

definition records_of :: "csv_field list list \<Rightarrow> csv_field list list" where
  "records_of body = filter (\<lambda>r. r \<noteq> []) body"

definition index_width :: "string list \<Rightarrow> csv_field list list \<Rightarrow> nat" where
  "index_width hdr recs = (case recs of [] \<Rightarrow> 0 | r # _ \<Rightarrow> length r - length hdr)"

definition data_fields :: "nat \<Rightarrow> nat \<Rightarrow> csv_field list \<Rightarrow> csv_field list" where
  "data_fields n k r = drop k (pad (n + k) r)"

fun read_csv :: "storage \<Rightarrow> error + dataframe" where
  \<comment> \<open>\<^verbatim>\<open>pd.read_csv(STORAGE_FILE, parse_dates=["Fake_date"])\<close>\<close>
  "read_csv Absent = Inl FileNotFoundError"
| "read_csv Truncated = Inl EmptyDataError"
| "read_csv (Csv hdr body) =
     (let recs = records_of body;
          k = index_width hdr recs;
          data = map (data_fields (length hdr) k) recs
      in if hdr = [] then Inl EmptyDataError
         else if ''Fake_date'' \<notin> set hdr then Inl ValueError
         else if \<exists>r \<in> set recs. length hdr + k < length r then Inl ParserError
         else Inr \<lparr>columns = hdr, rows = map (map2 convert (dtypes hdr data)) data\<rparr>)"

section \<open>Helpers\<close>

definition ensure_storage :: "storage \<Rightarrow> storage" where
  "ensure_storage fs = (if fs = Absent then Csv storage_cols [] else fs)"

definition load_storage :: "storage \<Rightarrow> (error + dataframe) \<times> storage" where
  "load_storage fs = (let fs' = ensure_storage fs in (read_csv fs', fs'))"

definition save_entry :: "pydict \<Rightarrow> storage \<Rightarrow> (error + unit) \<times> storage" where
  "save_entry row fs =
     (case load_storage fs of
        (Inl e, fs') \<Rightarrow> (Inl e, fs')
      | (Inr df, fs') \<Rightarrow> (Inr (), to_csv (concat_row df row)))"

text \<open>
  The contents \<^verbatim>\<open>STORAGE_FILE\<close> goes through while \<^verbatim>\<open>save_entry\<close> runs, in order: as
  found, after \<^verbatim>\<open>ensure_storage\<close>, and, when the load has succeeded, opened for writing by
  \<^verbatim>\<open>to_csv\<close> (which truncates the file at its own path) and then written.
\<close>

definition save_entry_states :: "pydict \<Rightarrow> storage \<Rightarrow> storage list" where
  "save_entry_states row fs =
     (case load_storage fs of
        (Inl e, fs') \<Rightarrow> [fs, fs']
      | (Inr df, fs') \<Rightarrow> [fs, fs', Truncated, to_csv (concat_row df row)])"




definition get_week_df :: "dataframe \<Rightarrow> timestamp option \<Rightarrow> int \<Rightarrow> timestamp
    \<Rightarrow> error + dataframe" where
  \<comment> \<open>the last argument is the clock, read by \<^verbatim>\<open>pd.Timestamp.today()\<close>; the timestamps
      are taken far enough from the ends of their range for \<open>start\<close> to be one\<close>
  "get_week_df df end_date days today =
     (if df_empty df then Inr df
      else
        let end_date = (case end_date of None \<Rightarrow> normalize_ts today | Some d \<Rightarrow> d)
        in case Timedelta (days - 1) of
             Inl e \<Rightarrow> Inl e
           | Inr delta \<Rightarrow>
               (let start = end_date - delta
                in case getitem df ''Fake_date'' of
                     Inl e \<Rightarrow> Inl e
                   | Inr col \<Rightarrow>
                       (case compare_ts (\<ge>) col start of
                          Inl e \<Rightarrow> Inl e
                        | Inr m1 \<Rightarrow>
                            (case compare_ts (\<le>) col end_date of
                               Inl e \<Rightarrow> Inl e
                             | Inr m2 \<Rightarrow> Inr (loc df (map2 (\<and>) m1 m2))))))"

definition dropna :: "float list \<Rightarrow> rat list" where
  "dropna xs = List.map_filter (\<lambda>x. x) xs"

definition quantile :: "float list \<Rightarrow> rat \<Rightarrow> float" where
  \<comment> \<open>\<^verbatim>\<open>Series.quantile(q)\<close> for \<open>0 \<le> q \<le> 1\<close>, with its default linear interpolation
      between the two nearest ranks, in exact arithmetic: NaN is skipped, and the quantile
      of no values is NaN\<close>
  "quantile series q =
     (let vs = sort (dropna series); n = length vs in
      if n = 0 then None
      else
        let h = of_nat (n - 1) * q;
            lo = nat \<lfloor>h\<rfloor>;
            hi = min (lo + 1) (n - 1);
            g = h - of_int \<lfloor>h\<rfloor>
        in Some (vs ! lo + (vs ! hi - vs ! lo) * g))"

definition k_default :: rat where
  \<comment> \<open>the default of the parameter \<^verbatim>\<open>k\<close>\<close>
  "k_default = 3/2"

definition anomaly_iqr :: "float list \<Rightarrow> rat \<Rightarrow> bool list" where
  \<comment> \<open>in exact arithmetic; see \<open>exact_series\<close> for inputs on which float64 agrees\<close>
  "anomaly_iqr series k =
     (let q1 = quantile series (1/4);
          q3 = quantile series (3/4);
          iqr = fsub q3 q1
      in if iqr = Some 0 \<or> isnan iqr then replicate (length series) False
         else
           let lower = fsub q1 (fmul (Some k) iqr);
               upper = fadd q3 (fmul (Some k) iqr)
           in map (\<lambda>x. flt x lower \<or> fgt x upper) series)"

section \<open>The schema of the ledger\<close>


definition whole :: "rat \<Rightarrow> bool" where
  "whole v = (of_int \<lfloor>v\<rfloor> = v)"

definition letter :: "char \<Rightarrow> bool" where
  "letter c = ((65 \<le> (of_char c :: nat) \<and> (of_char c :: nat) \<le> 90)
               \<or> (97 \<le> (of_char c :: nat) \<and> (of_char c :: nat) \<le> 122))"

definition digit :: "char \<Rightarrow> bool" where
  "digit c = (48 \<le> (of_char c :: nat) \<and> (of_char c :: nat) \<le> 57)"

definition lower :: "char \<Rightarrow> char" where
  "lower c =
     (if 65 \<le> (of_char c :: nat) \<and> (of_char c :: nat) \<le> 90
      then char_of ((of_char c :: nat) + 32) else c)"

definition reserved_words :: "string list" where
  "reserved_words =
     [''nan'', ''na'', ''null'', ''none'', ''true'', ''false'', ''inf'', ''infinity'']"

definition plain :: "string \<Rightarrow> bool" where
  "plain s =
     (case s of
        [] \<Rightarrow> False
      | c # _ \<Rightarrow>
          letter c \<and> list_all (\<lambda>c. letter c \<or> digit c \<or> c = CHR ''_'') s
          \<and> map lower s \<notin> set reserved_words)"






text \<open>
  Inputs of the anomaly detector on which float64 arithmetic does not round: whole numbers
  of at most \<open>2 ^ 32\<close> in magnitude (or NaN), and a multiplier that is a multiple of a
  quarter and at most 1024 in magnitude. Every intermediate result is then a multiple of
  a sixteenth below \<open>2 ^ 53\<close> sixteenths, which float64 holds exactly.
\<close>

definition exact_series :: "float list \<Rightarrow> bool" where
  "exact_series series =
     list_all (\<lambda>x. case x of None \<Rightarrow> True | Some v \<Rightarrow> whole v \<and> \<bar>v\<bar> \<le> 2 ^ 32) series"

definition exact_multiplier :: "rat \<Rightarrow> bool" where
  "exact_multiplier k = (whole (4 * k) \<and> \<bar>k\<bar> \<le> 1024)"

definition sixteenths :: "rat \<Rightarrow> bool" where
  "sixteenths x = (whole (16 * x) \<and> \<bar>16 * x\<bar> < 2 ^ 53)"

text \<open>A frame whose \<^verbatim>\<open>Fake_date\<close> column is a datetime column.\<close>

definition dated :: "dataframe \<Rightarrow> bool" where
  "dated df =
     (''Fake_date'' \<in> set (columns df) \<and>
      list_all (\<lambda>r. is_datetime (cell_of df r ''Fake_date'')) (rows df))"

definition in_window :: "dataframe \<Rightarrow> timestamp \<Rightarrow> timestamp \<Rightarrow> cell list \<Rightarrow> bool" where
  \<comment> \<open>the row has a date, and it lies between \<open>lo\<close> and \<open>hi\<close>, both included\<close>
  "in_window df lo hi r =
     (case cell_of df r ''Fake_date'' of Date d \<Rightarrow> lo \<le> d \<and> d \<le> hi | _ \<Rightarrow> False)"

subsection \<open>Sample data\<close>

definition sample_entry :: pydict where
  "sample_entry =
     [(''Fake_date'', Date 0), (''Income'', Num 100), (''Age'', Num 30),
      (''Dependents'', Num 0), (''Occupation'', Str (Other ''Clerk'')),
      (''City_Tier'', Str (Other ''Tier_1'')),
      (''Rent'', Num 20), (''Loan_Repayment'', Num 0), (''Insurance'', Num 0),
      (''Groceries'', Num 10), (''Transport'', Num 0), (''Eating_Out'', Num 0),
      (''Entertainment'', Num 0), (''Utilities'', Num 0), (''Healthcare'', Num 0),
      (''Education'', Num 0), (''Miscellaneous'', Num 0),
      (''Total_Expenses'', Num 30), (''Disposable_Income'', Num 70)]"




definition one_entry_file :: storage where
  \<comment> \<open>the file after \<open>sample_entry\<close> has been saved to a fresh store\<close>
  "one_entry_file =
     Csv storage_cols
       [[DateLit 0, NumLit 100, NumLit 30, NumLit 0, Other ''Clerk'', Other ''Tier_1'',
         NumLit 20, NumLit 0, NumLit 0, NumLit 10, NumLit 0, NumLit 0, NumLit 0, NumLit 0,
         NumLit 0, NumLit 0, NumLit 0, NumLit 30, NumLit 70]]"

definition malformed_file :: storage where
  \<comment> \<open>a date that is no date and an amount that is no number\<close>
  "malformed_file =
     Csv storage_cols
       [[Other ''2024-13-45'', NumLit 100, NumLit 30, NumLit 0, Other ''Clerk'',
         Other ''Tier_1'', Other ''abc'', NumLit 0, NumLit 0, NumLit 10, NumLit 0, NumLit 0,
         NumLit 0, NumLit 0, NumLit 0, NumLit 0, NumLit 0, NumLit 30, NumLit 70]]"


definition week_frame :: "timestamp \<Rightarrow> dataframe" where
  \<comment> \<open>entries dated \<open>D - 10\<close>, \<open>D - 8\<close>, \<open>D - 3\<close> and \<open>D\<close> days\<close>
  "week_frame D =
     \<lparr>columns = [''Fake_date'', ''Income''],
      rows = [[Date (D - 10 * day_ns), Num 1], [Date (D - 8 * day_ns), Num 2],
              [Date (D - 3 * day_ns), Num 3], [Date D, Num 4]]\<rparr>"

section \<open>Start-up\<close>

lemma startup_degrades:
  assumes "model_file w \<noteq> None \<or> remote w \<noteq> Raises"
  shows "\<exists>a. startup w = Inr a \<and> (model_loaded a \<longleftrightarrow> model_path a = Some Loadable)
           \<and> (\<not> model_loaded a \<longrightarrow> st_errors a \<noteq> [])"
  using assms
  by (auto simp: startup_def download_def split: option.splits response.splits artifact.splits)

text \<open>
  C9. When the model file is missing and \<^verbatim>\<open>requests.get\<close> raises, the script stops with that
  exception at the download: \<^verbatim>\<open>model_loaded\<close> is never set and no line after it runs,
  the definitions of the ledger helpers included.
\<close>

theorem startup_download_raises:
  "startup \<lparr>model_file = None, remote = Raises\<rparr> = Inl ConnectionError"
  by (simp add: startup_def download_def)

section \<open>The anomaly detector\<close>

lemma flt_Some_right: "flt x (Some b) = (\<exists>v. x = Some v \<and> v < b)"
  by (cases x) auto

lemma fgt_Some_right: "fgt x (Some b) = (\<exists>v. x = Some v \<and> b < v)"
  by (cases x) (auto simp: fgt_def)

lemma anomaly_iqr_degenerate:
  assumes "fsub (quantile series (3/4)) (quantile series (1/4)) = Some 0 \<or>
           isnan (fsub (quantile series (3/4)) (quantile series (1/4)))"
  shows "anomaly_iqr series k = replicate (length series) False"
  using assms by (auto simp: anomaly_iqr_def Let_def)

lemma quantile_constant:
  assumes "set (dropna series) \<subseteq> {v}" "0 \<le> q" "q \<le> 1"
  shows "quantile series q = (if dropna series = [] then None else Some v)"
proof (cases "dropna series = []")
  case True
  then show ?thesis by (simp add: quantile_def)
next
  case False
  define vs where "vs = sort (dropna series)"
  define n where "n = length vs"
  have n: "0 < n" using False by (simp add: n_def vs_def)
  have same: "\<And>i. i < n \<Longrightarrow> vs ! i = v"
    using assms(1) unfolding n_def vs_def
    by (metis nth_mem set_sort singletonD subsetD)
  define h where "h = (of_nat (n - 1) :: rat) * q"
  have "h \<le> of_nat (n - 1)"
    using assms(3) unfolding h_def by (simp add: mult_left_le)
  then have "\<lfloor>h\<rfloor> \<le> int (n - 1)"
    by (metis floor_mono floor_of_nat)
  then have lo: "nat \<lfloor>h\<rfloor> < n" using n by linarith
  have hi: "min (nat \<lfloor>h\<rfloor> + 1) (n - 1) < n" using n by linarith
  have "quantile series q = Some (vs ! nat \<lfloor>h\<rfloor> +
      (vs ! min (nat \<lfloor>h\<rfloor> + 1) (n - 1) - vs ! nat \<lfloor>h\<rfloor>) * (h - of_int \<lfloor>h\<rfloor>))"
    unfolding quantile_def Let_def vs_def[symmetric] n_def[symmetric] h_def[symmetric]
    using n by simp
  then show ?thesis
    using False unfolding same[OF lo] same[OF hi] by simp
qed

lemma few_distinct:
  assumes "card (set xs) < 2"
  shows "\<exists>v. set xs \<subseteq> {v}"
proof -
  have "card (set xs) = 0 \<or> card (set xs) = 1"
    using assms by linarith
  then show ?thesis
    by (auto simp: card_1_singleton_iff)
qed

lemma anomaly_iqr_few_distinct:
  assumes "card (set (dropna series)) < 2"
  shows "anomaly_iqr series k = replicate (length series) False"
proof -
  obtain v where v: "set (dropna series) \<subseteq> {v}"
    using few_distinct[OF assms] by blast
  have "quantile series (1/4) = (if dropna series = [] then None else Some v)"
       "quantile series (3/4) = (if dropna series = [] then None else Some v)"
    using quantile_constant[OF v] by simp_all
  then show ?thesis
    by (intro anomaly_iqr_degenerate) (simp add: isnan_def)
qed

lemma whole_iff: "whole v \<longleftrightarrow> v \<in> \<int>"
  unfolding whole_def by (metis Ints_cases Ints_of_int of_int_floor_cancel)

lemma dropna_mem: "x \<in> set (dropna series) \<longleftrightarrow> Some x \<in> set series"
  by (force simp: dropna_def map_filter_def)

lemma quantile_between:
  assumes "0 \<le> q" "q \<le> 1" "quantile series q = Some v"
  obtains a b g where "a \<in> set (dropna series)" "b \<in> set (dropna series)"
    "0 \<le> g" "g < 1" "v = a + (b - a) * g"
    "g = of_nat (length (dropna series) - 1) * q
           - of_int \<lfloor>of_nat (length (dropna series) - 1) * q :: rat\<rfloor>"
proof -
  define vs where "vs = sort (dropna series)"
  define n where "n = length vs"
  define h where "h = (of_nat (n - 1) :: rat) * q"
  have n: "0 < n"
    using assms(3) by (auto simp: quantile_def Let_def n_def vs_def split: if_splits)
  have "h \<le> of_nat (n - 1)"
    using assms(2) unfolding h_def by (simp add: mult_left_le)
  then have "\<lfloor>h\<rfloor> \<le> int (n - 1)"
    by (metis floor_mono floor_of_nat)
  then have lo: "nat \<lfloor>h\<rfloor> < n" using n by linarith
  have hi: "min (nat \<lfloor>h\<rfloor> + 1) (n - 1) < n" using n by linarith
  have "quantile series q = Some (vs ! nat \<lfloor>h\<rfloor> +
      (vs ! min (nat \<lfloor>h\<rfloor> + 1) (n - 1) - vs ! nat \<lfloor>h\<rfloor>) * (h - of_int \<lfloor>h\<rfloor>))"
    unfolding quantile_def Let_def vs_def[symmetric] n_def[symmetric] h_def[symmetric]
    using n by simp
  then have v: "v = vs ! nat \<lfloor>h\<rfloor> +
      (vs ! min (nat \<lfloor>h\<rfloor> + 1) (n - 1) - vs ! nat \<lfloor>h\<rfloor>) * (h - of_int \<lfloor>h\<rfloor>)"
    using assms(3) by simp
  have mem: "\<And>i. i < n \<Longrightarrow> vs ! i \<in> set (dropna series)"
    unfolding n_def vs_def by (metis nth_mem set_sort)
  have g: "0 \<le> h - of_int \<lfloor>h\<rfloor>" "h - of_int \<lfloor>h\<rfloor> < 1"
    by linarith+
  have len: "length (dropna series) = n" by (simp add: n_def vs_def)
  show ?thesis
    using that[OF mem[OF lo] mem[OF hi] g v] by (simp add: len h_def)
qed

lemma quantile_quarters:
  assumes "exact_series series" "whole (4 * q)" "0 \<le> q" "q \<le> 1" "quantile series q = Some v"
  shows "whole (4 * v) \<and> \<bar>v\<bar> \<le> 2 ^ 32"
proof -
  obtain a b g where ab: "a \<in> set (dropna series)" "b \<in> set (dropna series)"
    and g: "0 \<le> g" "g < 1" and v: "v = a + (b - a) * g"
    and gd: "g = of_nat (length (dropna series) - 1) * q
           - of_int \<lfloor>of_nat (length (dropna series) - 1) * q :: rat\<rfloor>"
    using quantile_between[OF assms(3,4,5)] by blast
  have ex: "\<And>x. x \<in> set (dropna series) \<Longrightarrow> x \<in> \<int> \<and> \<bar>x\<bar> \<le> 2 ^ 32"
    using assms(1)
    by (fastforce simp: exact_series_def dropna_mem list_all_iff whole_iff)
  have a: "a \<in> \<int>" "\<bar>a\<bar> \<le> 2 ^ 32" and b: "b \<in> \<int>" "\<bar>b\<bar> \<le> 2 ^ 32"
    using ex ab by blast+
  have "4 * g = of_nat (length (dropna series) - 1) * (4 * q)
           - 4 * of_int \<lfloor>of_nat (length (dropna series) - 1) * q :: rat\<rfloor>"
    by (simp add: gd algebra_simps)
  moreover have "of_nat (length (dropna series) - 1) * (4 * q) \<in> \<int>"
    using assms(2) by (simp add: whole_iff)
  ultimately have g4: "4 * g \<in> \<int>" by simp
  have "4 * v = 4 * a + (b - a) * (4 * g)"
    by (simp add: v algebra_simps)
  then have w: "4 * v \<in> \<int>" using a(1) b(1) g4 by simp
  have "v = (1 - g) * a + g * b" by (simp add: v algebra_simps)
  then have "\<bar>v\<bar> \<le> \<bar>(1 - g) * a\<bar> + \<bar>g * b\<bar>" by linarith
  also have "\<dots> = (1 - g) * \<bar>a\<bar> + g * \<bar>b\<bar>"
    using g by (simp add: abs_mult)
  also have "\<dots> \<le> (1 - g) * 2 ^ 32 + g * 2 ^ 32"
    using g a(2) b(2) by (intro add_mono mult_left_mono) simp_all
  also have "\<dots> = 2 ^ 32" by (simp add: algebra_simps)
  finally show ?thesis using w by (simp add: whole_iff)
qed

lemma bounds_sixteenths:
  assumes "exact_series series" "exact_multiplier k"
    "quantile series (1/4) = Some q1" "quantile series (3/4) = Some q3"
  shows "sixteenths q1 \<and> sixteenths q3 \<and> sixteenths (q3 - q1) \<and> sixteenths (k * (q3 - q1))
         \<and> sixteenths (q1 - k * (q3 - q1)) \<and> sixteenths (q3 + k * (q3 - q1))"
proof -
  have "whole (4 * (1/4 :: rat))" "whole (4 * (3/4 :: rat))"
    by (simp_all add: whole_def)
  then have q1: "4 * q1 \<in> \<int>" "\<bar>q1\<bar> \<le> 2 ^ 32" and q3: "4 * q3 \<in> \<int>" "\<bar>q3\<bar> \<le> 2 ^ 32"
    using quantile_quarters[OF assms(1) _ _ _ assms(3)]
      quantile_quarters[OF assms(1) _ _ _ assms(4)]
    by (simp_all add: whole_iff)
  have k: "4 * k \<in> \<int>" "\<bar>k\<bar> \<le> 1024"
    using assms(2) by (simp_all add: exact_multiplier_def whole_iff)
  define d where "d = q3 - q1"
  have d4: "4 * d \<in> \<int>"
  proof -
    have "4 * d = 4 * q3 - 4 * q1" by (simp add: d_def)
    then show ?thesis using q1(1) q3(1) by simp
  qed
  have dabs: "\<bar>d\<bar> \<le> 2 ^ 33" using q1(2) q3(2) by (simp add: d_def)
  have kd16: "16 * (k * d) \<in> \<int>"
  proof -
    have e: "16 * (k * d) = (4 * k) * (4 * d)" by simp
    show ?thesis unfolding e using k(1) d4 by (rule Ints_mult)
  qed
  have "\<bar>k * d\<bar> = \<bar>k\<bar> * \<bar>d\<bar>" by (simp add: abs_mult)
  also have "\<dots> \<le> 1024 * 2 ^ 33"
    using k(2) dabs by (intro mult_mono) simp_all
  finally have kdabs: "\<bar>k * d\<bar> \<le> 2 ^ 43" by simp
  have i16: "16 * x \<in> \<int>" if "4 * x \<in> \<int>" for x :: rat
  proof -
    have "16 * x = 4 * (4 * x)" by simp
    then show ?thesis using that by (metis Ints_mult Ints_numeral)
  qed
  have s1: "sixteenths q1" using i16[OF q1(1)] q1(2) by (simp add: sixteenths_def whole_iff)
  have s3: "sixteenths q3" using i16[OF q3(1)] q3(2) by (simp add: sixteenths_def whole_iff)
  have sd: "sixteenths d" using i16[OF d4] dabs by (simp add: sixteenths_def whole_iff)
  have skd: "sixteenths (k * d)" using kd16 kdabs by (simp add: sixteenths_def whole_iff)
  have "16 * (q1 - k * d) = 16 * q1 - 16 * (k * d)" by simp
  then have "16 * (q1 - k * d) \<in> \<int>" using i16[OF q1(1)] kd16 by simp
  moreover have "\<bar>q1 - k * d\<bar> \<le> 2 ^ 32 + 2 ^ 43" using q1(2) kdabs by linarith
  ultimately have sl: "sixteenths (q1 - k * d)" by (simp add: sixteenths_def whole_iff)
  have "16 * (q3 + k * d) = 16 * q3 + 16 * (k * d)" by simp
  then have "16 * (q3 + k * d) \<in> \<int>" using i16[OF q3(1)] kd16 by simp
  moreover have "\<bar>q3 + k * d\<bar> \<le> 2 ^ 32 + 2 ^ 43" using q3(2) kdabs by linarith
  ultimately have su: "sixteenths (q3 + k * d)" by (simp add: sixteenths_def whole_iff)
  show ?thesis using s1 s3 sd skd sl su by (simp add: d_def)
qed

text \<open>
  C3, as it stands, fails where the interquartile range is zero: in \<open>[5, 5, 5, 5, 100]\<close> both
  quartiles are 5, the value 100 lies strictly above \<open>Q3 + k * IQR = 5\<close>, and the guard
  \<^verbatim>\<open>if iqr == 0\<close> returns it unflagged. (All numbers of this series are whole and float64
  computes them without rounding.)
\<close>

theorem anomaly_iqr_zero_spread_counterexample:
  "quantile [Some 5, Some 5, Some 5, Some 5, Some 100] (1/4) = Some 5
   \<and> quantile [Some 5, Some 5, Some 5, Some 5, Some 100] (3/4) = Some 5
   \<and> (5::rat) + 3/2 * (5 - 5) < 100
   \<and> anomaly_iqr [Some 5, Some 5, Some 5, Some 5, Some 100] (3/2) ! 4 = False"
  by code_simp

text \<open>
  C3, amended. \<open>anomaly_iqr\<close> returns one flag for each value of the series, in the order of
  the series. For a series of whole numbers of at most \<open>2 ^ 32\<close> in magnitude (NaN allowed)
  and a multiplier \<open>k\<close> (default 1.5) that is a multiple of a quarter and at most 1024 in
  magnitude, when both quartiles exist and differ, a value is flagged exactly when it is
  strictly below \<open>Q1 - k * IQR\<close> or strictly above \<open>Q3 + k * IQR\<close>, where \<open>Q1\<close> and \<open>Q3\<close> are
  the quantiles at 0.25 and 0.75 by linear interpolation and \<open>IQR = Q3 - Q1\<close>; a missing
  value is never flagged. On these inputs the quartiles, the range, its multiple and both
  bounds are sixteenths that float64 holds exactly, so that the code's arithmetic does not
  round. On \<open>[10, 12, 11, 13, 9, 50]\<close> with the default \<open>k\<close> only index 5 is flagged.
\<close>

theorem anomaly_iqr_flags:
  "length (anomaly_iqr series k) = length series
   \<and> (exact_series series \<and> exact_multiplier k
        \<and> quantile series (1/4) = Some q1 \<and> quantile series (3/4) = Some q3 \<and> q3 - q1 \<noteq> 0 \<longrightarrow>
        (\<forall>i < length series.
           anomaly_iqr series k ! i \<longleftrightarrow>
           (\<exists>v. series ! i = Some v \<and> (v < q1 - k * (q3 - q1) \<or> q3 + k * (q3 - q1) < v)))
        \<and> sixteenths q1 \<and> sixteenths q3 \<and> sixteenths (q3 - q1) \<and> sixteenths (k * (q3 - q1))
        \<and> sixteenths (q1 - k * (q3 - q1)) \<and> sixteenths (q3 + k * (q3 - q1)))
   \<and> exact_series [Some 10, Some 12, Some 11, Some 13, Some 9, Some 50]
   \<and> exact_multiplier k_default
   \<and> anomaly_iqr [Some 10, Some 12, Some 11, Some 13, Some 9, Some 50] k_default
       = [False, False, False, False, False, True]"
proof (intro conjI impI)
  show "length (anomaly_iqr series k) = length series"
    by (simp add: anomaly_iqr_def Let_def)
next
  assume a: "exact_series series \<and> exact_multiplier k
        \<and> quantile series (1/4) = Some q1 \<and> quantile series (3/4) = Some q3 \<and> q3 - q1 \<noteq> 0"
  then have "anomaly_iqr series k =
      map (\<lambda>x. \<exists>v. x = Some v \<and> (v < q1 - k * (q3 - q1) \<or> q3 + k * (q3 - q1) < v)) series"
    by (auto simp: anomaly_iqr_def Let_def isnan_def flt_Some_right fgt_Some_right)
  then show "\<forall>i < length series.
           anomaly_iqr series k ! i \<longleftrightarrow>
           (\<exists>v. series ! i = Some v \<and> (v < q1 - k * (q3 - q1) \<or> q3 + k * (q3 - q1) < v))"
    by simp
  from a have s: "sixteenths q1 \<and> sixteenths q3 \<and> sixteenths (q3 - q1) \<and> sixteenths (k * (q3 - q1))
         \<and> sixteenths (q1 - k * (q3 - q1)) \<and> sixteenths (q3 + k * (q3 - q1))"
    using bounds_sixteenths by blast
  from s show "sixteenths q1" by blast
  from s show "sixteenths q3" by blast
  from s show "sixteenths (q3 - q1)" by blast
  from s show "sixteenths (k * (q3 - q1))" by blast
  from s show "sixteenths (q1 - k * (q3 - q1))" by blast
  from s show "sixteenths (q3 + k * (q3 - q1))" by blast
next
  show "exact_series [Some 10, Some 12, Some 11, Some 13, Some 9, Some 50]"
    by code_simp
  show "exact_multiplier k_default"
    by code_simp
  show "anomaly_iqr [Some 10, Some 12, Some 11, Some 13, Some 9, Some 50] k_default
       = [False, False, False, False, False, True]"
    by code_simp
qed

theorem anomaly_iqr_flags_witness:
  "exact_series [Some 10, Some 12, Some 11, Some 13, Some 9, Some 50]
   \<and> exact_multiplier (3/2)
   \<and> quantile [Some 10, Some 12, Some 11, Some 13, Some 9, Some 50] (1/4) = Some (41/4)
   \<and> quantile [Some 10, Some 12, Some 11, Some 13, Some 9, Some 50] (3/4) = Some (51/4)
   \<and> (51/4 :: rat) - 41/4 \<noteq> 0
   \<and> anomaly_iqr [Some 10, Some 12, Some 11, Some 13, Some 9, Some 50] (3/2) ! 5
   \<and> (\<exists>v. [Some 10, Some 12, Some 11, Some 13, Some 9, Some (50::rat)] ! 5 = Some v
          \<and> (v < 41/4 - 3/2 * (51/4 - 41/4) \<or> 51/4 + 3/2 * (51/4 - 41/4) < v))
   \<and> sixteenths (51/4 + 3/2 * (51/4 - 41/4))"
proof -
  let ?s = "[Some 10, Some 12, Some 11, Some 13, Some 9, Some (50::rat)]"
  have e: "exact_series ?s" "exact_multiplier (3/2)"
    by code_simp+
  have q: "quantile ?s (1/4) = Some (41/4)" "quantile ?s (3/4) = Some (51/4)"
    by code_simp+
  have d: "(51/4 :: rat) - 41/4 \<noteq> 0" by simp
  have l: "5 < length ?s" by simp
  have t: "(\<forall>i < length ?s. anomaly_iqr ?s (3/2) ! i \<longleftrightarrow>
      (\<exists>v. ?s ! i = Some v \<and> (v < 41/4 - 3/2 * (51/4 - 41/4) \<or> 51/4 + 3/2 * (51/4 - 41/4) < v)))
      \<and> sixteenths (51/4 + 3/2 * (51/4 - 41/4))"
    using anomaly_iqr_flags[of ?s "3/2" "41/4" "51/4"] e q d by blast
  then have "anomaly_iqr ?s (3/2) ! 5 \<longleftrightarrow>
      (\<exists>v. ?s ! 5 = Some v \<and> (v < 41/4 - 3/2 * (51/4 - 41/4) \<or> 51/4 + 3/2 * (51/4 - 41/4) < v))"
    using l by blast
  moreover have "\<exists>v. ?s ! 5 = Some v \<and> (v < 41/4 - 3/2 * (51/4 - 41/4) \<or> 51/4 + 3/2 * (51/4 - 41/4) < v)"
    by simp
  ultimately show ?thesis using e q d t by blast
qed

text \<open>
  C6. When the interquartile range is zero or NaN, \<open>anomaly_iqr\<close> flags nothing and returns
  as many flags as the series has values. That is the case for a series with fewer than two
  distinct values, for the empty series and for a series of one value; the constant series
  \<open>[5, 5, 5, 5, 5]\<close> gives five times \<open>False\<close>. The function is total: it has no error
  result.
\<close>

theorem anomaly_iqr_no_spread:
  "(fsub (quantile series (3/4)) (quantile series (1/4)) = Some 0
      \<or> isnan (fsub (quantile series (3/4)) (quantile series (1/4)))
      \<longrightarrow> anomaly_iqr series k = replicate (length series) False)
   \<and> (card (set (dropna series)) < 2 \<longrightarrow> anomaly_iqr series k = replicate (length series) False)
   \<and> (length series < 2 \<longrightarrow> anomaly_iqr series k = replicate (length series) False)
   \<and> anomaly_iqr [Some 5, Some 5, Some 5, Some 5, Some 5] (3/2)
       = [False, False, False, False, False]"
proof (intro conjI impI)
  assume "fsub (quantile series (3/4)) (quantile series (1/4)) = Some 0
      \<or> isnan (fsub (quantile series (3/4)) (quantile series (1/4)))"
  then show "anomaly_iqr series k = replicate (length series) False"
    by (rule anomaly_iqr_degenerate)
next
  assume "card (set (dropna series)) < 2"
  then show "anomaly_iqr series k = replicate (length series) False"
    by (rule anomaly_iqr_few_distinct)
next
  assume short: "length series < 2"
  have "length (dropna series) \<le> length series"
    by (simp add: dropna_def map_filter_def)
  moreover have "card (set (dropna series)) \<le> length (dropna series)"
    by (rule card_length)
  ultimately have "card (set (dropna series)) < 2" using short by linarith
  then show "anomaly_iqr series k = replicate (length series) False"
    by (rule anomaly_iqr_few_distinct)
next
  show "anomaly_iqr [Some 5, Some 5, Some 5, Some 5, Some 5] (3/2)
       = [False, False, False, False, False]"
    by code_simp
qed

theorem anomaly_iqr_no_spread_witness:
  "card (set (dropna [Some 7, None, Some 7])) < 2
   \<and> length [Some (4::rat)] < 2
   \<and> isnan (fsub (quantile [None, None] (3/4)) (quantile [None, None] (1/4)))
   \<and> anomaly_iqr [Some 7, None, Some 7] 2 = [False, False, False]
   \<and> anomaly_iqr [Some 4] 2 = [False]
   \<and> anomaly_iqr [None, None] 2 = [False, False]"
proof -
  have c: "card (set (dropna [Some 7, None, Some 7])) < 2"
    by (simp add: dropna_def map_filter_def)
  have l: "length [Some (4::rat)] < 2" by simp
  have n: "isnan (fsub (quantile [None, None] (3/4)) (quantile [None, None] (1/4)))"
    by code_simp
  show ?thesis
    using c l n
      anomaly_iqr_no_spread[of "[Some 7, None, Some 7]" 2]
      anomaly_iqr_no_spread[of "[Some 4]" 2]
      anomaly_iqr_no_spread[of "[None, None]" 2]
    by (simp add: numeral_eq_Suc)
qed

section \<open>The week window\<close>

lemma filter_by_mask:
  "map fst (filter snd (zip xs (map2 (\<and>) (map p xs) (map q xs)))) = filter (\<lambda>x. p x \<and> q x) xs"
  by (induction xs) auto


lemma get_week_df_dated:
  assumes "dated df" "Timedelta (days - 1) = Inr delta"
  shows "get_week_df df e days today =
     (let end_date = (case e of None \<Rightarrow> normalize_ts today | Some d \<Rightarrow> d)
      in Inr (df\<lparr>rows := filter (in_window df (end_date - delta) end_date) (rows df)\<rparr>))"
proof (cases "df_empty df")
  case True
  with assms have "rows df = []" by (auto simp: df_empty_def dated_def)
  then show ?thesis using True by (simp add: get_week_df_def Let_def)
next
  case False
  define ed where "ed = (case e of None \<Rightarrow> normalize_ts today | Some d \<Rightarrow> d)"
  define st where "st = ed - delta"
  define col where "col = map (\<lambda>r. cell_of df r ''Fake_date'') (rows df)"
  define ge where "ge = (\<lambda>r. case cell_of df r ''Fake_date'' of Date d \<Rightarrow> d \<ge> st | _ \<Rightarrow> False)"
  define le where "le = (\<lambda>r. case cell_of df r ''Fake_date'' of Date d \<Rightarrow> d \<le> ed | _ \<Rightarrow> False)"
  have g: "getitem df ''Fake_date'' = Inr col"
    using assms by (simp add: getitem_def dated_def col_def)
  have dt: "list_all is_datetime col"
    using assms by (simp add: dated_def col_def list_all_iff)
  have c1: "compare_ts (\<ge>) col st = Inr (map ge (rows df))"
    using dt by (simp add: compare_ts_def col_def ge_def)
  have c2: "compare_ts (\<le>) col ed = Inr (map le (rows df))"
    using dt by (simp add: compare_ts_def col_def le_def)
  have "get_week_df df e days today = Inr (loc df (map2 (\<and>) (map ge (rows df)) (map le (rows df))))"
    using False
    by (simp add: get_week_df_def Let_def assms(2) ed_def[symmetric] st_def[symmetric] g c1 c2)
  also have "\<dots> = Inr (df\<lparr>rows := filter (\<lambda>r. ge r \<and> le r) (rows df)\<rparr>)"
    unfolding loc_def filter_by_mask by simp
  also have "(\<lambda>r. ge r \<and> le r) = in_window df st ed"
    by (auto simp: in_window_def ge_def le_def fun_eq_iff split: cell.splits)
  finally show ?thesis by (simp add: Let_def ed_def st_def)
qed



text \<open>
  C8. On a frame without rows \<open>get_week_df\<close> returns the frame itself, whatever the window.
  On a ledger none of whose entries is dated inside the window it returns the ledger's
  columns with no rows, for every window that exists: its end, its span of \<open>days - 1\<close> days
  and its start are values pandas can hold. Both are results (\<open>Inr\<close>), not errors.
\<close>

theorem get_week_df_no_entries:
  "(rows df = [] \<longrightarrow> get_week_df df e days today = Inr df)
   \<and> (dated df
        \<and> ed = (case e of None \<Rightarrow> normalize_ts today | Some d \<Rightarrow> d)
        \<and> Timedelta (days - 1) = Inr delta \<and> in_ns_range ed \<and> in_ns_range (ed - delta)
        \<and> list_all (\<lambda>r. \<not> in_window df (ed - delta) ed r) (rows df)
      \<longrightarrow> get_week_df df e days today = Inr (df\<lparr>rows := []\<rparr>))"
proof (intro conjI impI)
  assume "rows df = []"
  then show "get_week_df df e days today = Inr df"
    by (simp add: get_week_df_def df_empty_def)
next
  assume a: "dated df
        \<and> ed = (case e of None \<Rightarrow> normalize_ts today | Some d \<Rightarrow> d)
        \<and> Timedelta (days - 1) = Inr delta \<and> in_ns_range ed \<and> in_ns_range (ed - delta)
        \<and> list_all (\<lambda>r. \<not> in_window df (ed - delta) ed r) (rows df)"
  then have d: "dated df"
    and edef: "ed = (case e of None \<Rightarrow> normalize_ts today | Some d \<Rightarrow> d)"
    and td: "Timedelta (days - 1) = Inr delta"
    and nw: "list_all (\<lambda>r. \<not> in_window df (ed - delta) ed r) (rows df)"
    by blast+
  have "filter (in_window df (ed - delta) ed) (rows df) = []"
    using nw by (simp add: list_all_iff filter_empty_conv)
  moreover have "get_week_df df e days today
      = Inr (df\<lparr>rows := filter (in_window df (ed - delta) ed) (rows df)\<rparr>)"
    using get_week_df_dated[OF d td, of e today] unfolding Let_def edef[symmetric] .
  ultimately show "get_week_df df e days today = Inr (df\<lparr>rows := []\<rparr>)"
    by simp
qed

theorem get_week_df_no_entries_witness:
  "get_week_df \<lparr>columns = storage_cols, rows = []\<rparr> None 7 0
     = Inr \<lparr>columns = storage_cols, rows = []\<rparr>
   \<and> dated (week_frame 0)
   \<and> Timedelta (7 - 1) = Inr (6 * day_ns)
   \<and> in_ns_range (20 * day_ns) \<and> in_ns_range (20 * day_ns - 6 * day_ns)
   \<and> get_week_df (week_frame 0) (Some (20 * day_ns)) 7 0
     = Inr \<lparr>columns = [''Fake_date'', ''Income''], rows = []\<rparr>"
proof -
  have d: "dated (week_frame 0)"
    by (simp add: dated_def week_frame_def cell_of_def)
  have t: "Timedelta (7 - 1) = Inr (6 * day_ns)"
    by (simp add: Timedelta_def in_ns_range_def day_ns_def int64_max_def)
  have i: "in_ns_range (20 * day_ns)" "in_ns_range (20 * day_ns - 6 * day_ns)"
    by (simp_all add: in_ns_range_def day_ns_def int64_max_def)
  have n: "list_all (\<lambda>r. \<not> in_window (week_frame 0) (20 * day_ns - 6 * day_ns) (20 * day_ns) r)
             (rows (week_frame 0))"
    by (simp add: week_frame_def in_window_def cell_of_def day_ns_def)
  have r: "rows \<lparr>columns = storage_cols, rows = []\<rparr> = []" by simp
  have "get_week_df \<lparr>columns = storage_cols, rows = []\<rparr> None 7 0
     = Inr \<lparr>columns = storage_cols, rows = []\<rparr>"
    using r get_week_df_no_entries[of "\<lparr>columns = storage_cols, rows = []\<rparr>" None 7 0]
    by blast
  moreover have "get_week_df (week_frame 0) (Some (20 * day_ns)) 7 0
      = Inr ((week_frame 0)\<lparr>rows := []\<rparr>)"
    using d t i n
      get_week_df_no_entries[of "week_frame 0" "Some (20 * day_ns)" 7 0 "20 * day_ns"
        "6 * day_ns"]
    by simp
  ultimately show ?thesis
    using d t i by (simp add: week_frame_def)
qed

section \<open>Reading the storage file\<close>

lemma length_dtypes: "length (dtypes hdr data) = length hdr"
  by (simp add: dtypes_def)

lemma read_csv_rect:
  assumes "''Fake_date'' \<in> set hdr" "list_all (\<lambda>r. length r = length hdr) body"
  shows "read_csv (Csv hdr body) =
     Inr \<lparr>columns = hdr, rows = map (map2 convert (dtypes hdr body)) body\<rparr>"
proof -
  have ne: "hdr \<noteq> []" using assms(1) by auto
  have len: "\<And>r. r \<in> set body \<Longrightarrow> length r = length hdr"
    using assms(2) by (simp add: list_all_iff)
  have recs: "records_of body = body"
    unfolding records_of_def filter_id_conv using len ne by fastforce
  have k: "index_width hdr body = 0"
    using len by (cases body) (simp_all add: index_width_def)
  have "map (data_fields (length hdr) 0) body = map (\<lambda>r. r) body"
    by (rule map_cong) (simp_all add: data_fields_def pad_def len)
  then have data: "map (data_fields (length hdr) 0) body = body" by simp
  have "\<not> (\<exists>r \<in> set body. length hdr + 0 < length r)"
    using len by auto
  then show ?thesis
    using ne assms(1) by (simp add: recs k data)
qed

lemma read_csv_shape:
  assumes "read_csv fs = Inr df"
  shows "''Fake_date'' \<in> set (columns df) \<and> list_all (\<lambda>r. length r = length (columns df)) (rows df)"
proof (cases fs)
  case (Csv hdr body)
  define recs where "recs = records_of body"
  define k where "k = index_width hdr recs"
  define data where "data = map (data_fields (length hdr) k) recs"
  have ok: "''Fake_date'' \<in> set hdr" "\<not> (\<exists>r \<in> set recs. length hdr + k < length r)"
    using assms unfolding Csv
    by (auto simp: Let_def recs_def k_def split: if_splits)
  then have df: "df = \<lparr>columns = hdr, rows = map (map2 convert (dtypes hdr data)) data\<rparr>"
    using assms unfolding Csv
    by (auto simp: Let_def recs_def k_def data_def split: if_splits)
  have "length f = length hdr" if fm: "f \<in> set data" for f
  proof -
    obtain r where r: "r \<in> set recs" "f = data_fields (length hdr) k r"
      using fm by (auto simp: data_def)
    then have "length r \<le> length hdr + k" using ok(2) by auto
    then show ?thesis by (simp add: r(2) data_fields_def pad_def)
  qed
  then have "list_all (\<lambda>r. length r = length hdr) (map (map2 convert (dtypes hdr data)) data)"
    by (simp add: list_all_iff length_dtypes)
  then show ?thesis using ok(1) by (simp add: df)
qed (use assms in simp_all)

lemma text_stays_text:
  assumes "field_at r j = Other s" "r \<in> set body"
  shows "convert (infer False (map (\<lambda>r. field_at r j) body)) (Other s) = Str (Other s)"
proof -
  have "Other s \<in> set (map (\<lambda>r. field_at r j) body)"
    using assms by force
  then have "\<not> list_all is_num_field (map (\<lambda>r. field_at r j) body)"
       "\<not> list_all is_bool_field (map (\<lambda>r. field_at r j) body)"
    unfolding list_all_iff by fastforce+
  then show ?thesis by (simp add: infer_def)
qed

lemma ensure_storage_Csv [simp]: "ensure_storage (Csv hdr body) = Csv hdr body"
  by (simp add: ensure_storage_def)

lemma read_csv_fresh: "read_csv (Csv storage_cols []) = Inr \<lparr>columns = storage_cols, rows = []\<rparr>"
proof -
  have "read_csv (Csv storage_cols [])
      = Inr \<lparr>columns = storage_cols, rows = map (map2 convert (dtypes storage_cols [])) []\<rparr>"
    by (rule read_csv_rect) (simp_all add: storage_cols_def)
  then show ?thesis by (simp only: list.map)
qed

lemma load_storage_Absent:
  "load_storage Absent = (Inr \<lparr>columns = storage_cols, rows = []\<rparr>, Csv storage_cols [])"
proof -
  have "ensure_storage Absent = Csv storage_cols []"
    by (simp add: ensure_storage_def)
  then show ?thesis
    unfolding load_storage_def Let_def by (simp only: read_csv_fresh)
qed

lemma load_storage_fails:
  assumes "fst (load_storage fs) = Inl e"
  shows "load_storage fs = (Inl e, fs)"
proof (cases "fs = Absent")
  case True
  then show ?thesis using assms by (simp add: load_storage_Absent)
next
  case False
  then show ?thesis using assms by (simp add: load_storage_def ensure_storage_def)
qed

lemma load_storage_succeeds:
  assumes "fst (load_storage fs) = Inr df"
  shows "load_storage fs = (Inr df, ensure_storage fs)" "read_csv (ensure_storage fs) = Inr df"
  using assms by (simp_all add: load_storage_def Let_def)

lemma load_storage_to_csv: "load_storage (to_csv df) = (read_csv (to_csv df), to_csv df)"
  by (simp add: load_storage_def to_csv_def)

lemma save_entry_succeeds:
  assumes "fst (load_storage fs) = Inr df"
  shows "save_entry row fs = (Inr (), to_csv (concat_row df row))"
  using load_storage_succeeds(1)[OF assms] by (simp add: save_entry_def)

lemma concat_row_parts:
  "columns (concat_row df row)
     = columns df @ filter (\<lambda>k. k \<notin> set (columns df)) (remdups (map fst row))"
  "rows (concat_row df row)
     = map (\<lambda>r. r @ replicate
               (length (filter (\<lambda>k. k \<notin> set (columns df)) (remdups (map fst row)))) NaN) (rows df)
       @ [map (\<lambda>c. row_get row c NaN) (columns (concat_row df row))]"
  by (simp_all add: concat_row_def Let_def)

lemma read_csv_concat_row:
  assumes "read_csv fs = Inr df"
  shows "\<exists>df'. read_csv (to_csv (concat_row df row)) = Inr df'"
proof -
  note shape = read_csv_shape[OF assms]
  define new where "new = filter (\<lambda>k. k \<notin> set (columns df)) (remdups (map fst row))"
  have cols: "columns (concat_row df row) = columns df @ new"
    by (simp add: concat_row_parts new_def)
  have "list_all (\<lambda>r. length r = length (columns (concat_row df row)))
          (map (map to_field) (rows (concat_row df row)))"
    using shape unfolding concat_row_parts(2) cols new_def[symmetric]
    by (auto simp: list_all_iff)
  moreover have "''Fake_date'' \<in> set (columns (concat_row df row))"
    using shape by (simp add: cols)
  ultimately show ?thesis
    unfolding to_csv_def using read_csv_rect by blast
qed

text \<open>
  C4, as it stands, fails: \<open>load_storage\<close> returns the data of a file with a date that is
  no date and an amount that is no number. Both columns come back as strings.
\<close>

theorem load_storage_malformed_counterexample:
  "load_storage malformed_file =
     (Inr \<lparr>columns = storage_cols,
           rows = [[Str (Other ''2024-13-45''), Num 100, Num 30, Num 0, Str (Other ''Clerk''),
                    Str (Other ''Tier_1''), Str (Other ''abc''), Num 0, Num 0, Num 10, Num 0,
                    Num 0, Num 0, Num 0, Num 0, Num 0, Num 0, Num 30, Num 70]]\<rparr>,
      malformed_file)"
  by code_simp

text \<open>
  C4, amended. \<open>load_storage\<close> checks no schema and has no error of its own for a corrupt
  store: for every stored file whose header has at least two labels, distinct and not
  empty, \<^verbatim>\<open>Fake_date\<close> among them, and whose records have as many fields as the header, it
  returns a frame with the header's columns and one row for each record, whatever the
  fields hold, and leaves the file as it is. A plain word under an amount column, or under
  any column but \<^verbatim>\<open>Fake_date\<close>, comes back as that text.
\<close>

theorem load_storage_no_schema_check:
  assumes "''Fake_date'' \<in> set hdr" "distinct hdr" "[] \<notin> set hdr" "2 \<le> length hdr"
    and "list_all (\<lambda>r. length r = length hdr) body"
  shows "\<exists>df. load_storage (Csv hdr body) = (Inr df, Csv hdr body)
           \<and> columns df = hdr \<and> length (rows df) = length body
           \<and> list_all (\<lambda>r. length r = length hdr) (rows df)
           \<and> (\<forall>i j s. i < length body \<and> j < length hdr \<and> hdr ! j \<noteq> ''Fake_date''
                   \<and> body ! i ! j = Other s \<and> plain s
                 \<longrightarrow> rows df ! i ! j = Str (Other s))"
proof -
  let ?df = "\<lparr>columns = hdr, rows = map (map2 convert (dtypes hdr body)) body\<rparr>"
  have rd: "read_csv (Csv hdr body) = Inr ?df"
    by (rule read_csv_rect[OF assms(1,5)])
  then have l: "load_storage (Csv hdr body) = (Inr ?df, Csv hdr body)"
    by (simp add: load_storage_def)
  have sh: "list_all (\<lambda>r. length r = length hdr) (rows ?df)"
    using read_csv_shape[OF rd] by simp
  have "rows ?df ! i ! j = Str (Other s)"
    if i: "i < length body" and j: "j < length hdr" and nd: "hdr ! j \<noteq> ''Fake_date''"
      and f: "body ! i ! j = Other s"
    for i j s
  proof -
    have mem: "body ! i \<in> set body" using i by simp
    then have len: "length (body ! i) = length hdr"
      using assms(5) by (simp add: list_all_iff)
    then have fa: "field_at (body ! i) j = Other s"
      using j f by (simp add: field_at_def)
    have "rows ?df ! i ! j = convert (dtypes hdr body ! j) (body ! i ! j)"
      using i j len by (simp add: length_dtypes)
    also have "\<dots> = convert (infer False (map (\<lambda>r. field_at r j) body)) (Other s)"
      using j nd f by (simp add: dtypes_def)
    also have "\<dots> = Str (Other s)"
      by (rule text_stays_text[OF fa mem])
    finally show ?thesis .
  qed
  then show ?thesis using l sh by (intro exI[of _ ?df]) simp
qed

theorem load_storage_no_schema_check_witness:
  "''Fake_date'' \<in> set storage_cols \<and> distinct storage_cols \<and> [] \<notin> set storage_cols
   \<and> 2 \<le> length storage_cols \<and> plain ''abc''
   \<and> (\<exists>df. load_storage malformed_file = (Inr df, malformed_file)
          \<and> columns df = storage_cols \<and> length (rows df) = 1
          \<and> rows df ! 0 ! 6 = Str (Other ''abc''))"
proof -
  define body where "body =
       [[Other ''2024-13-45'', NumLit 100, NumLit 30, NumLit 0, Other ''Clerk'',
         Other ''Tier_1'', Other ''abc'', NumLit 0, NumLit 0, NumLit 10, NumLit 0, NumLit 0,
         NumLit 0, NumLit 0, NumLit 0, NumLit 0, NumLit 0, NumLit 30, NumLit 70]]"
  have m: "malformed_file = Csv storage_cols body"
    by (simp add: malformed_file_def body_def)
  have h1: "''Fake_date'' \<in> set storage_cols" and h2: "distinct storage_cols"
    and h3: "[] \<notin> set storage_cols" and h4: "2 \<le> length storage_cols"
    by (simp_all add: storage_cols_def CATEGORIES_def)
  have h5: "list_all (\<lambda>r. length r = length storage_cols) body"
    by (simp add: storage_cols_def CATEGORIES_def body_def)
  have p: "plain ''abc''" by code_simp
  obtain df where df: "load_storage (Csv storage_cols body) = (Inr df, Csv storage_cols body)"
      "columns df = storage_cols" "length (rows df) = length body"
      "\<forall>i j s. i < length body \<and> j < length storage_cols \<and> storage_cols ! j \<noteq> ''Fake_date''
                   \<and> body ! i ! j = Other s \<and> plain s
                 \<longrightarrow> rows df ! i ! j = Str (Other s)"
    using load_storage_no_schema_check[OF h1 h2 h3 h4 h5] by blast
  have "0 < length body \<and> 6 < length storage_cols \<and> storage_cols ! 6 \<noteq> ''Fake_date''
        \<and> body ! 0 ! 6 = Other ''abc''"
    by (simp add: body_def storage_cols_def CATEGORIES_def)
  then have c6: "rows df ! 0 ! 6 = Str (Other ''abc'')"
    using df(4) p by blast
  have "length (rows df) = 1" using df(3) by (simp add: body_def)
  then show ?thesis using h1 h2 h3 h4 p df(1,2) c6 unfolding m by blast
qed

section \<open>Saving an entry\<close>
















text \<open>
  C5, as it stands, fails under interruption. \<open>to_csv\<close> writes to the path of the store
  itself: the file is first truncated, then filled. A run of \<open>save_entry\<close> that stops in
  between leaves a file of zero bytes where a readable ledger stood, and \<open>load_storage\<close>
  fails on it.
\<close>

theorem save_entry_interrupted_counterexample:
  "fst (load_storage one_entry_file)
     = Inr \<lparr>columns = storage_cols,
            rows = [[Date 0, Num 100, Num 30, Num 0, Str (Other ''Clerk''),
                     Str (Other ''Tier_1''), Num 20, Num 0, Num 0, Num 10, Num 0, Num 0,
                     Num 0, Num 0, Num 0, Num 0, Num 0, Num 30, Num 70]]\<rparr>
   \<and> save_entry_states sample_entry one_entry_file ! 2 = Truncated
   \<and> fst (load_storage Truncated) = Inl EmptyDataError"
  by code_simp

text \<open>
  C5, amended. A call of \<open>save_entry\<close> that runs to its end is all or nothing: when
  \<open>load_storage\<close> fails, \<open>save_entry\<close> fails with the same error and the file is as it was;
  when \<open>load_storage\<close> succeeds, \<open>save_entry\<close> succeeds and leaves a file that
  \<open>load_storage\<close> reads without error. The write itself is in place (no new file that
  replaces the old one): between the state after \<open>ensure_storage\<close> and the final state the
  file is empty.
\<close>

theorem save_entry_completed:
  "(fst (load_storage fs) = Inl e \<longrightarrow> save_entry row fs = (Inl e, fs))
   \<and> (fst (load_storage fs) = Inr df \<longrightarrow>
        fst (save_entry row fs) = Inr ()
        \<and> (\<exists>df'. fst (load_storage (snd (save_entry row fs))) = Inr df')
        \<and> save_entry_states row fs
            = [fs, ensure_storage fs, Truncated, snd (save_entry row fs)])
   \<and> last (save_entry_states row fs) = snd (save_entry row fs)"
proof (intro conjI impI)
  assume "fst (load_storage fs) = Inl e"
  then have "load_storage fs = (Inl e, fs)"
    by (rule load_storage_fails)
  then show "save_entry row fs = (Inl e, fs)"
    by (simp add: save_entry_def)
next
  assume a: "fst (load_storage fs) = Inr df"
  show "fst (save_entry row fs) = Inr ()"
    by (simp add: save_entry_succeeds[OF a])
  show "\<exists>df'. fst (load_storage (snd (save_entry row fs))) = Inr df'"
    using read_csv_concat_row[OF load_storage_succeeds(2)[OF a], of row]
    by (auto simp: save_entry_succeeds[OF a] load_storage_to_csv)
  show "save_entry_states row fs = [fs, ensure_storage fs, Truncated, snd (save_entry row fs)]"
    by (simp add: save_entry_states_def load_storage_succeeds(1)[OF a] save_entry_succeeds[OF a])
next
  show "last (save_entry_states row fs) = snd (save_entry row fs)"
  proof (cases "fst (load_storage fs)")
    case (Inl e')
    then have "load_storage fs = (Inl e', fs)"
      by (rule load_storage_fails)
    then show ?thesis
      by (simp add: save_entry_states_def save_entry_def)
  next
    case (Inr df')
    then have "load_storage fs = (Inr df', ensure_storage fs)"
      by (rule load_storage_succeeds(1))
    then show ?thesis
      by (simp add: save_entry_states_def save_entry_def)
  qed
qed

theorem save_entry_completed_witness:
  "fst (load_storage Truncated) = Inl EmptyDataError
   \<and> save_entry sample_entry Truncated = (Inl EmptyDataError, Truncated)
   \<and> fst (load_storage Absent) = Inr \<lparr>columns = storage_cols, rows = []\<rparr>
   \<and> fst (save_entry sample_entry Absent) = Inr ()
   \<and> (\<exists>df'. fst (load_storage (snd (save_entry sample_entry Absent))) = Inr df')
   \<and> save_entry_states sample_entry Absent
       = [Absent, Csv storage_cols [], Truncated, snd (save_entry sample_entry Absent)]"
proof -
  have f: "fst (load_storage Truncated) = Inl EmptyDataError"
    by code_simp
  have s: "fst (load_storage Absent) = Inr \<lparr>columns = storage_cols, rows = []\<rparr>"
    by (simp add: load_storage_Absent)
  have e: "ensure_storage Absent = Csv storage_cols []"
    by (simp add: ensure_storage_def)
  have t: "save_entry sample_entry Truncated = (Inl EmptyDataError, Truncated)"
    using f save_entry_completed[of Truncated EmptyDataError sample_entry] by blast
  have a: "fst (save_entry sample_entry Absent) = Inr ()
        \<and> (\<exists>df'. fst (load_storage (snd (save_entry sample_entry Absent))) = Inr df')
        \<and> save_entry_states sample_entry Absent
            = [Absent, ensure_storage Absent, Truncated, snd (save_entry sample_entry Absent)]"
    using s save_entry_completed[of Absent EmptyDataError sample_entry
        "\<lparr>columns = storage_cols, rows = []\<rparr>"]
    by blast
  show ?thesis
    using f s t a unfolding e by blast
qed







end
